theory Spec2Isabelle
  imports Main "HOL-Library.Sublist"
begin

section \<open>Python string primitives used by backend.py\<close>

text \<open>
  Strings are \<open>char list\<close>. The model covers ASCII text: \<open>\w\<close> is the class
  \<open>[A-Za-z0-9_]\<close>, \<open>str.upper\<close> maps \<open>a..z\<close> to \<open>A..Z\<close>, and
  \<open>str.strip\<close> removes the ASCII characters for which \<open>str.isspace\<close> holds.
\<close>

definition is_word :: "char \<Rightarrow> bool" where
  "is_word c = (let n = (of_char c :: nat) in
     (48 \<le> n \<and> n \<le> 57) \<or> (65 \<le> n \<and> n \<le> 90) \<or> (97 \<le> n \<and> n \<le> 122) \<or> n = 95)"

definition is_space :: "char \<Rightarrow> bool" where
  "is_space c = (let n = (of_char c :: nat) in (9 \<le> n \<and> n \<le> 13) \<or> (28 \<le> n \<and> n \<le> 32))"

definition upper_char :: "char \<Rightarrow> char" where
  "upper_char c = (let n = (of_char c :: nat) in if 97 \<le> n \<and> n \<le> 122 then char_of (n - 32) else c)"

definition upper :: "string \<Rightarrow> string" where
  "upper s = map upper_char s"

definition strip :: "string \<Rightarrow> string" where
  "strip s = rev (dropWhile is_space (rev (dropWhile is_space s)))"

text \<open>\<open>sub in s\<close>: \<open>sub\<close> occurs in \<open>s\<close> as a contiguous substring.\<close>

fun contains :: "string \<Rightarrow> string \<Rightarrow> bool" where
  "contains sub [] = (sub = [])"
| "contains sub (c # cs) = (prefix sub (c # cs) \<or> contains sub cs)"

text \<open>
  \<open>s.replace(old, new)\<close>: the text is scanned from the left; at an occurrence of
  \<open>old\<close> the replacement is emitted and the scan resumes after the occurrence, so the
  occurrences replaced do not overlap. For the empty \<open>old\<close> Python puts \<open>new\<close> before
  every character and at the end.
\<close>

fun replace_scan :: "string \<Rightarrow> string \<Rightarrow> string \<Rightarrow> string" where
  "replace_scan old new [] = []"
| "replace_scan old new (c # cs) =
     (if old \<noteq> [] \<and> prefix old (c # cs)
      then new @ replace_scan old new (drop (length old) (c # cs))
      else c # replace_scan old new cs)"

definition replace :: "string \<Rightarrow> string \<Rightarrow> string \<Rightarrow> string" where
  "replace s old new =
     (if old = [] then new @ concat (map (\<lambda>c. c # new) s) else replace_scan old new s)"

text \<open>\<open>str(n)\<close> for a natural number: its decimal digits.\<close>

definition digits :: string where
  "digits = ''0123456789''"

fun str_nat :: "nat \<Rightarrow> string" where
  "str_nat n =
     (if n < 10 then [digits ! n] else str_nat (n div 10) @ [digits ! (n mod 10)])"

declare str_nat.simps [simp del]

text \<open>
  The first occurrence of \<open>sub\<close> in \<open>s\<close>: the text before it and the text after it.
\<close>

fun split_first :: "string \<Rightarrow> string \<Rightarrow> (string \<times> string) option" where
  "split_first sub [] = (if sub = [] then Some ([], []) else None)"
| "split_first sub (c # cs) =
     (if prefix sub (c # cs) then Some ([], drop (length sub) (c # cs))
      else map_option (\<lambda>(a, b). (c # a, b)) (split_first sub cs))"

section \<open>The regular expression of the tokenizer\<close>

text \<open>
  \<open>email_pattern = r'[\w\.-]+@[\w\.-]+\.\w+'\<close> is a sequence of single characters and
  greedy \<open>+\<close> repetitions of character classes. \<open>bt p s\<close> is the backtracking match
  of \<open>p\<close> at the start of \<open>s\<close>: a \<open>+\<close> first takes the longest run of its class and
  gives characters back one at a time until the rest of the pattern matches. The
  result is the number of characters matched.
\<close>

datatype cls = WordDotDash | Word | Lit char

fun in_cls :: "cls \<Rightarrow> char \<Rightarrow> bool" where
  "in_cls WordDotDash c = (is_word c \<or> c = CHR ''.'' \<or> c = CHR ''-'')"
| "in_cls Word c = is_word c"
| "in_cls (Lit l) c = (c = l)"

datatype atom = One cls | Plus cls

fun greedy :: "(nat \<Rightarrow> nat option) \<Rightarrow> nat \<Rightarrow> nat option" where
  "greedy f 0 = None"
| "greedy f (Suc n) = (case f (Suc n) of Some r \<Rightarrow> Some r | None \<Rightarrow> greedy f n)"

fun bt :: "atom list \<Rightarrow> string \<Rightarrow> nat option" where
  "bt [] s = Some 0"
| "bt (One k # r) [] = None"
| "bt (One k # r) (c # cs) = (if in_cls k c then map_option Suc (bt r cs) else None)"
| "bt (Plus k # r) s =
     greedy (\<lambda>n. map_option (\<lambda>m. n + m) (bt r (drop n s))) (length (takeWhile (in_cls k) s))"

text \<open>
  \<open>re.findall\<close>: the matches found scanning from the left, each search resuming where
  the previous match ended; after an empty match the scan moves one character on.
\<close>

fun findall :: "atom list \<Rightarrow> string \<Rightarrow> string list" where
  "findall p [] = (case bt p [] of None \<Rightarrow> [] | Some n \<Rightarrow> [[]])"
| "findall p (c # cs) =
     (case bt p (c # cs) of
        None \<Rightarrow> findall p cs
      | Some 0 \<Rightarrow> [] # findall p cs
      | Some (Suc n) \<Rightarrow> take (Suc n) (c # cs) # findall p (drop n cs))"

definition email_pattern :: "atom list" where
  "email_pattern =
     [Plus WordDotDash, One (Lit CHR ''@''), Plus WordDotDash, One (Lit CHR ''.''), Plus Word]"

section \<open>Tokenizer and redactor\<close>

text \<open>
  A \<open>dict\<close> keeps its keys in insertion order; \<open>d[k] = v\<close> overwrites the value of a
  key already present and appends a new key otherwise.
\<close>

type_synonym pii_dict = "(string \<times> string) list"

fun dict_set :: "pii_dict \<Rightarrow> string \<Rightarrow> string \<Rightarrow> pii_dict" where
  "dict_set [] k v = [(k, v)]"
| "dict_set ((k', v') # m) k v = (if k' = k then (k, v) # m else (k', v') # dict_set m k v)"

definition placeholder :: "nat \<Rightarrow> string" where
  "placeholder n = ''__EMAIL_'' @ str_nat n @ ''__''"

text \<open>The loop \<open>for i, email in enumerate(emails)\<close> of \<open>pii_filter_input\<close>.\<close>

fun pii_loop :: "nat \<Rightarrow> string list \<Rightarrow> string \<Rightarrow> pii_dict \<Rightarrow> string \<times> pii_dict" where
  "pii_loop i [] sanitized_text m = (sanitized_text, m)"
| "pii_loop i (email # emails) sanitized_text m =
     pii_loop (i + 1) emails
       (replace sanitized_text email (placeholder (i + 1)))
       (dict_set m (placeholder (i + 1)) email)"

definition pii_filter_input :: "string \<Rightarrow> string \<times> pii_dict" where
  "pii_filter_input text = pii_loop 0 (findall email_pattern text) text []"

definition redaction_tag :: string where
  "redaction_tag = ''[EMAIL_REDACTED]''"

definition redact_result_data :: "string \<Rightarrow> pii_dict \<Rightarrow> string" where
  "redact_result_data data_str m =
     (if m = [] then data_str
      else fold (\<lambda>(p, real_value) d. replace d real_value redaction_tag) m data_str)"

text \<open>The swap of \<open>execute_sql_node\<close>: every placeholder is replaced by its real value.\<close>

definition rehydrate :: "pii_dict \<Rightarrow> string \<Rightarrow> string" where
  "rehydrate m sql = fold (\<lambda>(p, real_value) q. replace q p real_value) m sql"

text \<open>The last scrub of \<open>generate_answer_node\<close>: placeholders become the tag.\<close>

definition scrub_placeholders :: "pii_dict \<Rightarrow> string \<Rightarrow> string" where
  "scrub_placeholders m final_text = fold (\<lambda>(p, real_value) t. replace t p redaction_tag) m final_text"

section \<open>Pipeline state, external services and events\<close>

text \<open>
  \<open>AgentState\<close> is a \<open>TypedDict\<close> whose keys are written by the nodes. A key a node may
  read before any node has written it is an \<open>option\<close> (\<open>None\<close>: the key is absent, or
  holds Python's \<open>None\<close>, which \<open>state.get\<close> does not distinguish). The keys
  \<open>sanitized_question\<close>, \<open>sql_query\<close> and \<open>pii_map\<close> are written by the entry node
  before any read; they start empty.
\<close>

datatype 'v chart = EmptyChart | Chart (labels: "'v list") (chart_values: "'v list") (columns: "string list")

record 'v agent_state =
  question :: string
  sanitized_question :: string
  sql_query :: string
  query_result :: "string option"
  final_answer :: "string option"
  chart_data :: "'v chart option"
  error :: "string option"
  retry_count :: "int option"
  pii_map :: pii_dict

text \<open>
  The result of \<open>pd.read_sql_query\<close>: the column names, the rows (each as long as the
  list of columns) and the text \<open>str(conn)\<close> that pandas prints for the frame.
\<close>

record 'v data_frame =
  df_columns :: "string list"
  df_rows :: "'v list list"
  df_str :: string

definition wf_df :: "'v data_frame \<Rightarrow> bool" where
  "wf_df d = list_all (\<lambda>r. length r = length (df_columns d)) (df_rows d)"

text \<open>\<open>DataFrame.empty\<close>: one of the two axes has length 0.\<close>

definition df_empty :: "'v data_frame \<Rightarrow> bool" where
  "df_empty d = (df_rows d = [] \<or> df_columns d = [])"

datatype message = SystemMessage string | HumanMessage string

datatype event = SchemaCall | LLMCall "message list" | DBExec string

datatype exn = LLMError | KeyError string | GraphRecursionError

text \<open>
  The text-generation service and the relational store are arbitrary functions. Their
  first argument is the number of external calls made so far in the run, so that the
  same request may be answered differently at different times. \<open>llm_invoke\<close> returns
  \<open>None\<close> when the call raises; \<open>read_sql_query\<close> returns \<open>Inl (str e)\<close> when the
  execution raises the exception \<open>e\<close>.
\<close>

record 'v world =
  llm_invoke :: "nat \<Rightarrow> message list \<Rightarrow> string option"
  get_table_info :: "nat \<Rightarrow> string"
  read_sql_query :: "nat \<Rightarrow> string \<Rightarrow> string + 'v data_frame"

text \<open>What a node does: it raises, or returns the updated state; both with the events so far.\<close>

datatype 'a outcome = Raised exn "event list" | Returned 'a "event list"

definition newline :: string where
  "newline = [CHR 0x0A]"

definition fence_sql :: string where
  "fence_sql = ''```sql''"

definition fence :: string where
  "fence = ''```''"

section \<open>The nodes\<close>

definition sql_system_prompt :: "string \<Rightarrow> string" where
  "sql_system_prompt schema =
     ''You are an expert SQL Data Analyst.'' @ newline @
     ''    1. Schema: '' @ schema @ newline @
     ''    2. IMPORTANT: The user query uses placeholders like '' @ [CHR 0x27] @ ''__EMAIL_1__'' @ [CHR 0x27] @ ''.'' @ newline @
     ''       Treat these as LITERAL strings to search for in the database.'' @ newline @
     ''       DO NOT try to remove the underscores.'' @ newline @
     ''    3. Generate a valid SQLITE query.'' @ newline @
     ''    4. Output ONLY the SQL query.'' @ newline @
     ''    ''"

definition generate_sql_messages :: "string \<Rightarrow> string \<Rightarrow> message list" where
  "generate_sql_messages schema sanitized =
     [SystemMessage (sql_system_prompt schema), HumanMessage (''User Question: '' @ sanitized)]"

definition strip_fences :: "string \<Rightarrow> string" where
  "strip_fences content = strip (replace (replace content fence_sql []) fence [])"

definition generate_sql_node ::
  "'v world \<Rightarrow> 'v agent_state \<Rightarrow> event list \<Rightarrow> 'v agent_state outcome" where
  "generate_sql_node w state tr =
     (let sanitized = fst (pii_filter_input (question state));
          m = snd (pii_filter_input (question state));
          schema = get_table_info w (length tr);
          messages = generate_sql_messages schema sanitized;
          tr' = tr @ [SchemaCall, LLMCall messages]
      in case llm_invoke w (Suc (length tr)) messages of
           None \<Rightarrow> Raised LLMError tr'
         | Some content \<Rightarrow>
             Returned (state\<lparr>sql_query := strip_fences content,
                             sanitized_question := sanitized,
                             pii_map := m,
                             retry_count := Some (case retry_count state of None \<Rightarrow> 0 | Some n \<Rightarrow> n)\<rparr>) tr')"

definition unsafe_sql :: "string \<Rightarrow> bool" where
  "unsafe_sql sql = (contains ''DROP'' (upper sql) \<or> contains ''DELETE'' (upper sql))"

definition check_system_prompt :: "string \<Rightarrow> string \<Rightarrow> string" where
  "check_system_prompt schema sql =
     ''Verify this SQL query for SQLite schema: '' @ schema @ newline @
     ''    Query: '' @ sql @ newline @
     ''    If correct, output '' @ [CHR 0x22] @ ''CORRECT'' @ [CHR 0x22] @
     ''. If incorrect, output ONLY the fixed SQL.'' @ newline @
     ''    ''"

text \<open>
  \<open>re.search(r"```sql(.*?)```", res_text, re.DOTALL)\<close>: the lazy group ends at the first
  closing fence after the first opening fence. When no fence follows the first opening
  fence, none follows a later one either, and the search fails.
\<close>

definition search_fenced :: "string \<Rightarrow> string option" where
  "search_fenced res_text =
     (case split_first fence_sql res_text of
        None \<Rightarrow> None
      | Some (before, rest) \<Rightarrow> map_option fst (split_first fence rest))"

definition repaired_sql :: "string \<Rightarrow> string" where
  "repaired_sql res_text =
     (case (if contains fence_sql res_text then search_fenced res_text else None) of
        Some g \<Rightarrow> strip g
      | None \<Rightarrow> strip_fences res_text)"

definition check_sql_node ::
  "'v world \<Rightarrow> 'v agent_state \<Rightarrow> event list \<Rightarrow> 'v agent_state outcome" where
  "check_sql_node w state tr =
     (let sql = sql_query state;
          schema = get_table_info w (length tr)
      in if unsafe_sql sql
         then Returned (state\<lparr>error := Some ''Unsafe query detected.'', sql_query := []\<rparr>)
                (tr @ [SchemaCall])
         else
           (let messages = [SystemMessage (check_system_prompt schema sql)];
                tr' = tr @ [SchemaCall, LLMCall messages]
            in case llm_invoke w (Suc (length tr)) messages of
                 None \<Rightarrow> Raised LLMError tr'
               | Some content \<Rightarrow>
                   (let res_text = strip content
                    in if contains ''CORRECT'' (upper res_text)
                       then Returned (state\<lparr>error := None\<rparr>) tr'
                       else Returned (state\<lparr>sql_query := repaired_sql res_text, error := None\<rparr>) tr')))"

definition chart_of :: "'v data_frame \<Rightarrow> 'v chart" where
  "chart_of conn =
     (if \<not> df_empty conn \<and> 2 \<le> length (df_columns conn)
      then Chart (map (\<lambda>r. r ! 0) (df_rows conn)) (map (\<lambda>r. r ! 1) (df_rows conn)) (df_columns conn)
      else EmptyChart)"

definition execute_sql_node ::
  "'v world \<Rightarrow> 'v agent_state \<Rightarrow> event list \<Rightarrow> 'v agent_state outcome" where
  "execute_sql_node w state tr =
     (let executable_sql = rehydrate (pii_map state) (sql_query state);
          tr' = tr @ [DBExec executable_sql]
      in case read_sql_query w (length tr) executable_sql of
           Inr conn \<Rightarrow>
             Returned (state\<lparr>query_result := Some (redact_result_data (df_str conn) (pii_map state)),
                             chart_data := Some (chart_of conn)\<rparr>) tr'
         | Inl msg \<Rightarrow>
             (case retry_count state of
                None \<Rightarrow> Raised (KeyError ''retry_count'') tr'
              | Some n \<Rightarrow> Returned (state\<lparr>error := Some msg, retry_count := Some (n + 1)\<rparr>) tr'))"

text \<open>\<open>if state.get("error")\<close>: the key is present and its value is not the empty string.\<close>

definition truthy :: "string option \<Rightarrow> bool" where
  "truthy e = (case e of None \<Rightarrow> False | Some msg \<Rightarrow> msg \<noteq> [])"

definition answer_prompt :: "string \<Rightarrow> string \<Rightarrow> string \<Rightarrow> string" where
  "answer_prompt sanitized sql result =
     newline @
     ''    User Question: '' @ sanitized @ newline @
     ''    SQL Query: '' @ sql @ newline @
     ''    Data Retrieved: '' @ result @ newline @
     ''   '' @ newline @
     ''    Answer the question.'' @ newline @
     ''    If the data shows the email is present, confirm it using '' @ [CHR 0x27] @ ''[EMAIL_REDACTED]'' @ [CHR 0x27] @ ''.'' @ newline @
     ''    If the data is empty, don'' @ [CHR 0x27] @ ''t say anything about emails or so.'' @ newline @
     ''    ''"

definition generate_answer_node ::
  "'v world \<Rightarrow> 'v agent_state \<Rightarrow> event list \<Rightarrow> 'v agent_state outcome" where
  "generate_answer_node w state tr =
     (if truthy (error state)
      then Returned (state\<lparr>final_answer :=
             Some (''Error: '' @ (case error state of None \<Rightarrow> [] | Some msg \<Rightarrow> msg))\<rparr>) tr
      else case query_result state of
             None \<Rightarrow> Raised (KeyError ''query_result'') tr
           | Some result \<Rightarrow>
               (let messages = [HumanMessage (answer_prompt (sanitized_question state) (sql_query state) result)];
                    tr' = tr @ [LLMCall messages]
                in case llm_invoke w (length tr) messages of
                     None \<Rightarrow> Raised LLMError tr'
                   | Some content \<Rightarrow>
                       Returned (state\<lparr>final_answer := Some (scrub_placeholders (pii_map state) content)\<rparr>) tr'))"

section \<open>The graph\<close>

datatype node = GenerateSQL | CheckSQL | ExecuteSQL | GenerateAnswer | END

definition should_retry :: "'v agent_state \<Rightarrow> exn + node" where
  "should_retry state =
     (if truthy (error state)
      then (case retry_count state of
              None \<Rightarrow> Inl (KeyError ''retry_count'')
            | Some n \<Rightarrow> Inr (if n < 3 then GenerateSQL else GenerateAnswer))
      else Inr GenerateAnswer)"

text \<open>One node execution and the edge taken after it.\<close>

fun step :: "'v world \<Rightarrow> node \<times> 'v agent_state \<Rightarrow> event list \<Rightarrow> (node \<times> 'v agent_state) outcome" where
  "step w (GenerateSQL, s) tr =
     (case generate_sql_node w s tr of
        Raised e tr' \<Rightarrow> Raised e tr' | Returned s' tr' \<Rightarrow> Returned (CheckSQL, s') tr')"
| "step w (CheckSQL, s) tr =
     (case check_sql_node w s tr of
        Raised e tr' \<Rightarrow> Raised e tr' | Returned s' tr' \<Rightarrow> Returned (ExecuteSQL, s') tr')"
| "step w (ExecuteSQL, s) tr =
     (case execute_sql_node w s tr of
        Raised e tr' \<Rightarrow> Raised e tr'
      | Returned s' tr' \<Rightarrow>
          (case should_retry s' of Inl e \<Rightarrow> Raised e tr' | Inr n \<Rightarrow> Returned (n, s') tr'))"
| "step w (GenerateAnswer, s) tr =
     (case generate_answer_node w s tr of
        Raised e tr' \<Rightarrow> Raised e tr' | Returned s' tr' \<Rightarrow> Returned (END, s') tr')"
| "step w (END, s) tr = Returned (END, s) tr"

text \<open>
  \<open>steps w k c tr\<close>: the configuration after \<open>k\<close> node executions (the run stays at
  \<open>END\<close> once it is there).
\<close>

fun steps :: "'v world \<Rightarrow> nat \<Rightarrow> node \<times> 'v agent_state \<Rightarrow> event list \<Rightarrow> (node \<times> 'v agent_state) outcome" where
  "steps w 0 c tr = Returned c tr"
| "steps w (Suc k) c tr =
     (case step w c tr of Raised e tr' \<Rightarrow> Raised e tr' | Returned c' tr' \<Rightarrow> steps w k c' tr')"

text \<open>
  The compiled graph runs nodes until \<open>END\<close>; \<open>limit\<close> is the graph's recursion limit
  (the number of node executions after which the library raises \<open>GraphRecursionError\<close>).
\<close>

fun run_graph :: "'v world \<Rightarrow> nat \<Rightarrow> node \<times> 'v agent_state \<Rightarrow> event list \<Rightarrow> 'v agent_state outcome" where
  "run_graph w limit (END, s) tr = Returned s tr"
| "run_graph w 0 (n, s) tr = Raised GraphRecursionError tr"
| "run_graph w (Suc limit) (n, s) tr =
     (case step w (n, s) tr of
        Raised e tr' \<Rightarrow> Raised e tr' | Returned c' tr' \<Rightarrow> run_graph w limit c' tr')"

text \<open>The callers' input: \<open>{"question": q, "retry_count": 0}\<close>.\<close>

definition initial_state :: "string \<Rightarrow> 'v agent_state" where
  "initial_state q =
     \<lparr>question = q, sanitized_question = [], sql_query = [], query_result = None,
      final_answer = None, chart_data = None, error = None, retry_count = Some 0, pii_map = []\<rparr>"

definition invoke :: "'v world \<Rightarrow> nat \<Rightarrow> string \<Rightarrow> 'v agent_state outcome" where
  "invoke w limit q = run_graph w limit (GenerateSQL, initial_state q) []"

section \<open>Observations on runs and example services\<close>

definition events_of :: "'a outcome \<Rightarrow> event list" where
  "events_of r = (case r of Raised e tr \<Rightarrow> tr | Returned x tr \<Rightarrow> tr)"

definition returned :: "'a outcome \<Rightarrow> 'a option" where
  "returned r = (case r of Raised e tr \<Rightarrow> None | Returned x tr \<Rightarrow> Some x)"

fun is_exec :: "event \<Rightarrow> bool" where
  "is_exec (DBExec q) = True"
| "is_exec e = False"

definition exec_count :: "event list \<Rightarrow> nat" where
  "exec_count tr = length (filter is_exec tr)"

text \<open>
  A service whose replies depend only on the time of the call, and a store whose
  replies depend only on the query.
\<close>

definition scripted_world ::
  "(nat \<Rightarrow> string option) \<Rightarrow> string \<Rightarrow> (string \<Rightarrow> string + 'v data_frame) \<Rightarrow> 'v world" where
  "scripted_world script schema db =
     \<lparr>llm_invoke = (\<lambda>i msgs. script i), get_table_info = (\<lambda>i. schema),
      read_sql_query = (\<lambda>i q. db q)\<rparr>"


definition three_column_world :: "nat world" where
  "three_column_world =
     scripted_world (\<lambda>i. Some ''CORRECT'') ''sales(id, amount)''
       (\<lambda>q. Inr \<lparr>df_columns = [''region'', ''total'', ''orders''], df_rows = [[7, 8, 9], [4, 5, 6]],
                  df_str = ''region total orders''\<rparr>)"

text \<open>The state carries the tokenization of the question \<open>q\<close>.\<close>

definition tokenized :: "string \<Rightarrow> 'v agent_state \<Rightarrow> bool" where
  "tokenized q s =
     (sanitized_question s = fst (pii_filter_input q) \<and> pii_map s = snd (pii_filter_input q))"

text \<open>
  A store that knows one query and rejects every other text with a message that
  repeats the text it was given.
\<close>

definition echo_store :: "string \<Rightarrow> string + nat data_frame" where
  "echo_store q =
     (if q = ''SELECT name FROM customers''
      then Inr \<lparr>df_columns = [''name''], df_rows = [[1]], df_str = ''name 1''\<rparr>
      else Inl (''no such column: '' @ q))"

text \<open>The synthesizer writes the known query and the validator certifies it.\<close>

definition answering_world :: "nat world" where
  "answering_world =
     scripted_world
       (\<lambda>i. if i = 1 then Some ''SELECT name FROM customers''
            else if i = 3 then Some ''CORRECT'' else Some ''One customer.'')
       ''customers(name, email)'' echo_store"

text \<open>Every query written uses the first placeholder and is rejected by the store.\<close>

definition failing_world :: "nat world" where
  "failing_world =
     scripted_world (\<lambda>i. Some ''SELECT __EMAIL_1__'') ''customers(name, email)''
       (\<lambda>q. Inl (''no such column: '' @ q))"

text \<open>The store raises an exception whose text is empty.\<close>

definition silent_failure_world :: "nat world" where
  "silent_failure_world =
     scripted_world (\<lambda>i. Some ''SELECT 1'') ''customers(name, email)'' (\<lambda>q. Inl [])"


text \<open>The underscore, the character at both ends of a placeholder.\<close>

abbreviation (input) us :: char where
  "us \<equiv> CHR ''_''"

text \<open>
  \<open>masked E J s t\<close>: the text \<open>s\<close> is the underscore-free text \<open>t\<close> in which some
  occurrences of values \<open>E j\<close>, \<open>j \<in> J\<close>, are replaced by the placeholder of \<open>j\<close>.
\<close>

inductive masked :: "(nat \<Rightarrow> string) \<Rightarrow> nat set \<Rightarrow> string \<Rightarrow> string \<Rightarrow> bool"
  for E :: "nat \<Rightarrow> string" and J :: "nat set" where
  masked_Nil: "masked E J [] []"
| masked_Char: "c \<noteq> us \<Longrightarrow> masked E J s t \<Longrightarrow> masked E J (c # s) (c # t)"
| masked_Token: "j \<in> J \<Longrightarrow> masked E J s t \<Longrightarrow> masked E J (placeholder j @ s) (E j @ t)"

section \<open>Strings\<close>

lemma contains_prefix: "prefix sub s \<Longrightarrow> contains sub s"
  by (cases s) auto

lemma contains_append: "contains sub (a @ sub @ b)"
  by (induction a) (auto simp: contains_prefix)

lemma upper_append: "upper (a @ b) = upper a @ upper b"
  by (simp add: upper_def)

lemma unsafe_sql_embedded:
  "upper kw = ''DROP'' \<or> upper kw = ''DELETE'' \<Longrightarrow> unsafe_sql (pre @ kw @ post)"
  unfolding unsafe_sql_def upper_append
  using contains_append by metis

lemma replace_Nil: "old \<noteq> [] \<Longrightarrow> replace [] old new = []"
  by (simp add: replace_def)

section \<open>Keys of the placeholder map\<close>

lemma placeholder_nonempty: "placeholder j \<noteq> []"
  by (simp add: placeholder_def)

lemma dict_set_subset: "set (dict_set m k v) \<subseteq> insert (k, v) (set m)"
  by (induction m k v rule: dict_set.induct) auto

lemma pii_loop_keys:
  "(p, r) \<in> set (snd (pii_loop i es t m)) \<Longrightarrow> (p, r) \<in> set m \<or> (\<exists>j. p = placeholder j)"
proof (induction es arbitrary: i t m)
  case Nil
  then show ?case by simp
next
  case (Cons e es)
  from Cons.prems have
    "(p, r) \<in> set (snd (pii_loop (i + 1) es (replace t e (placeholder (i + 1)))
                          (dict_set m (placeholder (i + 1)) e)))"
    by simp
  from Cons.IH[OF this] show ?case
    using dict_set_subset[of m "placeholder (i + 1)" e] by auto
qed

lemma pii_keys_nonempty: "(p, r) \<in> set (snd (pii_filter_input q)) \<Longrightarrow> p \<noteq> []"
  unfolding pii_filter_input_def
  using pii_loop_keys[of p r 0 "findall email_pattern q" q "[]"] placeholder_nonempty by auto

lemma rehydrate_Nil: "(\<And>p r. (p, r) \<in> set m \<Longrightarrow> p \<noteq> []) \<Longrightarrow> rehydrate m [] = []"
proof (induction m)
  case Nil
  then show ?case by (simp add: rehydrate_def)
next
  case (Cons a m)
  obtain p r where a: "a = (p, r)" by (cases a)
  have "p \<noteq> []" using Cons.prems[of p r] a by simp
  moreover have "rehydrate m [] = []"
    by (rule Cons.IH) (use Cons.prems in auto)
  ultimately show ?case using a by (simp add: rehydrate_def replace_Nil)
qed

section \<open>The validator\<close>


lemma steps_Suc:
  "steps w (Suc k) c tr =
     (case step w c tr of Raised e tr' \<Rightarrow> Raised e tr' | Returned c' tr' \<Rightarrow> steps w k c' tr')"
  by simp

lemma check_blocked:
  "unsafe_sql (sql_query s) \<Longrightarrow>
   check_sql_node w s tr =
     Returned (s\<lparr>error := Some ''Unsafe query detected.'', sql_query := []\<rparr>) (tr @ [SchemaCall])"
  by (simp add: check_sql_node_def)





text \<open>
  C10. The test is a substring test on the uppercased text: a query in which the
  letters of DROP or DELETE occur anywhere, in any case, is blocked.
\<close>

theorem keyword_inside_identifier_blocked:
  "upper kw = ''DROP'' \<or> upper kw = ''DELETE'' \<Longrightarrow> sql_query s = pre @ kw @ post \<Longrightarrow>
   check_sql_node w s tr =
     Returned (s\<lparr>error := Some ''Unsafe query detected.'', sql_query := []\<rparr>) (tr @ [SchemaCall])"
  using unsafe_sql_embedded[of kw pre post] by (simp add: check_blocked)

theorem keyword_inside_identifier_blocked_witness:
  "check_sql_node three_column_world
     ((initial_state ''q'')\<lparr>sql_query := ''SELECT * FROM deleted_orders''\<rparr>) [] =
   Returned ((initial_state ''q'')\<lparr>error := Some ''Unsafe query detected.'', sql_query := []\<rparr>) [SchemaCall]"
proof -
  have u: "upper ''delete'' = ''DROP'' \<or> upper ''delete'' = ''DELETE''"
    by code_simp
  have q: "sql_query ((initial_state ''q'' :: nat agent_state)\<lparr>sql_query := ''SELECT * FROM deleted_orders''\<rparr>)
           = ''SELECT * FROM '' @ ''delete'' @ ''d_orders''"
    by simp
  show ?thesis
    using keyword_inside_identifier_blocked[OF u q, of three_column_world "[]"] by simp
qed

section \<open>The executor\<close>

lemma execute_success:
  "read_sql_query w (length tr) (rehydrate (pii_map s) (sql_query s)) = Inr conn \<Longrightarrow>
   execute_sql_node w s tr =
     Returned (s\<lparr>query_result := Some (redact_result_data (df_str conn) (pii_map s)),
                chart_data := Some (chart_of conn)\<rparr>)
       (tr @ [DBExec (rehydrate (pii_map s) (sql_query s))])"
  by (simp add: execute_sql_node_def)


lemma chart_of_produced:
  "chart_of conn \<noteq> EmptyChart \<longleftrightarrow> df_rows conn \<noteq> [] \<and> 2 \<le> length (df_columns conn)"
  by (auto simp: chart_of_def df_empty_def)

text \<open>
  C6 (amended). On a successful execution the chart projection is produced if and
  only if the result has at least one row and at least two columns. When produced,
  its labels are the column-0 values and its values the column-1 values, in row
  order (every row has both cells), and its column-names field lists the names of
  all columns of the result, in order. Otherwise the projection is empty.
\<close>

theorem chart_projection_gating:
  assumes "read_sql_query w (length tr) (rehydrate (pii_map s) (sql_query s)) = Inr conn"
    and "wf_df conn"
  shows "\<exists>s' tr'. execute_sql_node w s tr = Returned s' tr' \<and> chart_data s' = Some (chart_of conn)
    \<and> (chart_of conn \<noteq> EmptyChart \<longleftrightarrow> df_rows conn \<noteq> [] \<and> 2 \<le> length (df_columns conn))
    \<and> (chart_of conn \<noteq> EmptyChart \<longrightarrow>
          labels (chart_of conn) = map (\<lambda>r. r ! 0) (df_rows conn)
        \<and> chart_values (chart_of conn) = map (\<lambda>r. r ! 1) (df_rows conn)
        \<and> columns (chart_of conn) = df_columns conn
        \<and> (\<forall>r \<in> set (df_rows conn). 1 < length r))"
proof -
  have "chart_of conn \<noteq> EmptyChart \<Longrightarrow> \<forall>r \<in> set (df_rows conn). 1 < length r"
    using assms(2) by (auto simp: chart_of_produced wf_df_def list_all_iff)
  moreover have "chart_of conn \<noteq> EmptyChart \<Longrightarrow>
      chart_of conn = Chart (map (\<lambda>r. r ! 0) (df_rows conn)) (map (\<lambda>r. r ! 1) (df_rows conn)) (df_columns conn)"
    by (simp add: chart_of_def split: if_splits)
  ultimately show ?thesis
    using execute_success[OF assms(1)] chart_of_produced[of conn] by auto
qed

theorem chart_projection_gating_witness:
  "\<exists>s' tr'. execute_sql_node three_column_world (initial_state ''q'') [] = Returned s' tr'
     \<and> chart_data s' = Some (Chart [7, 4] [8, 5] [''region'', ''total'', ''orders''])"
proof -
  let ?conn = "\<lparr>df_columns = [''region'', ''total'', ''orders''], df_rows = [[7, 8, 9], [4, 5, 6 :: nat]],
                df_str = ''region total orders''\<rparr>"
  have a: "read_sql_query three_column_world (length ([] :: event list))
             (rehydrate (pii_map (initial_state ''q'' :: nat agent_state)) (sql_query (initial_state ''q'' :: nat agent_state)))
           = Inr ?conn"
    by (simp add: three_column_world_def scripted_world_def)
  have b: "wf_df ?conn"
    by (simp add: wf_df_def)
  have c: "chart_of ?conn = Chart [7, 4] [8, 5] [''region'', ''total'', ''orders'']"
    by (simp add: chart_of_def df_empty_def)
  show ?thesis
    using chart_projection_gating[OF a b] c by simp
qed

theorem chart_columns_not_a_pair:
  "map_option chart_data (returned (execute_sql_node three_column_world (initial_state ''q'') []))
     = Some (Some (Chart [7, 4] [8, 5] [''region'', ''total'', ''orders'']))
   \<and> [''region'', ''total'', ''orders''] \<noteq> [''region'', ''total'']"
  by code_simp

section \<open>What each node changes\<close>

lemma generate_sql_Returned:
  "generate_sql_node w s tr = Returned s' tr' \<Longrightarrow>
   question s' = question s
   \<and> sanitized_question s' = fst (pii_filter_input (question s))
   \<and> pii_map s' = snd (pii_filter_input (question s))
   \<and> retry_count s' = Some (case retry_count s of None \<Rightarrow> 0 | Some n \<Rightarrow> n)
   \<and> error s' = error s \<and> query_result s' = query_result s"
  by (auto simp: generate_sql_node_def Let_def split: option.splits)

lemma check_sql_Returned:
  "check_sql_node w s tr = Returned s' tr' \<Longrightarrow>
   question s' = question s \<and> sanitized_question s' = sanitized_question s
   \<and> pii_map s' = pii_map s \<and> retry_count s' = retry_count s
   \<and> query_result s' = query_result s
   \<and> (error s' = None \<or> (error s' = Some ''Unsafe query detected.'' \<and> sql_query s' = []))"
  by (auto simp: check_sql_node_def Let_def split: option.splits if_splits)

lemma execute_sql_Returned:
  "execute_sql_node w s tr = Returned s' tr' \<Longrightarrow>
   question s' = question s \<and> sanitized_question s' = sanitized_question s
   \<and> pii_map s' = pii_map s \<and> sql_query s' = sql_query s"
  by (auto simp: execute_sql_node_def Let_def split: option.splits sum.splits)

lemma generate_answer_Returned:
  "generate_answer_node w s tr = Returned s' tr' \<Longrightarrow>
   question s' = question s \<and> sanitized_question s' = sanitized_question s
   \<and> pii_map s' = pii_map s \<and> sql_query s' = sql_query s
   \<and> retry_count s' = retry_count s \<and> error s' = error s"
  by (auto simp: generate_answer_node_def Let_def split: option.splits if_splits)

section \<open>Invariants of a run\<close>

lemma step_question:
  "step w (n, s) tr = Returned (n', s') tr' \<Longrightarrow> question s' = question s"
  by (cases n)
     (auto split: outcome.splits sum.splits
           dest: generate_sql_Returned check_sql_Returned execute_sql_Returned generate_answer_Returned)

lemma step_tokenized:
  assumes "step w (n, s) tr = Returned (n', s') tr'" and "question s = q"
    and "n = GenerateSQL \<or> tokenized q s"
  shows "tokenized q s'"
  using assms
  by (cases n)
     (auto simp: tokenized_def split: outcome.splits sum.splits
           dest: generate_sql_Returned check_sql_Returned execute_sql_Returned generate_answer_Returned)

lemma steps_question:
  "steps w k (n, s) tr = Returned (n', s') tr' \<Longrightarrow> question s' = question s"
proof (induction k arbitrary: n s tr)
  case 0
  then show ?case by simp
next
  case (Suc k)
  then obtain n1 s1 tr1 where 1: "step w (n, s) tr = Returned (n1, s1) tr1"
    and 2: "steps w k (n1, s1) tr1 = Returned (n', s') tr'"
    by (auto split: outcome.splits)
  from Suc.IH[OF 2] step_question[OF 1] show ?case by simp
qed

lemma steps_tokenized:
  assumes "steps w k (n, s) tr = Returned (n', s') tr'" and "question s = q"
    and "(n = GenerateSQL \<and> 0 < k) \<or> tokenized q s"
  shows "tokenized q s'"
  using assms
proof (induction k arbitrary: n s tr)
  case 0
  then show ?case by simp
next
  case (Suc k)
  then obtain n1 s1 tr1 where 1: "step w (n, s) tr = Returned (n1, s1) tr1"
    and 2: "steps w k (n1, s1) tr1 = Returned (n', s') tr'"
    by (auto split: outcome.splits)
  have q1: "question s1 = q" using step_question[OF 1] Suc.prems(2) by simp
  have t1: "tokenized q s1"
    using step_tokenized[OF 1 Suc.prems(2)] Suc.prems(3) by auto
  show ?case by (rule Suc.IH[OF 2 q1]) (simp add: t1)
qed

text \<open>
  C8. In every configuration of a run the question is the caller's text, and from
  the first node execution on (so also in every retry iteration) the sanitized
  question and the placeholder map are the tokenization of that text. The executor
  and the answer composer return the placeholder map they were given.
\<close>

theorem question_and_map_stable:
  "steps w k (GenerateSQL, initial_state q) [] = Returned (n, s) tr \<Longrightarrow>
   question s = q
   \<and> (0 < k \<longrightarrow> sanitized_question s = fst (pii_filter_input q) \<and> pii_map s = snd (pii_filter_input q))
   \<and> (\<forall>s1 tr1. execute_sql_node w s tr = Returned s1 tr1 \<longrightarrow> pii_map s1 = pii_map s)
   \<and> (\<forall>s1 tr1. generate_answer_node w s tr = Returned s1 tr1 \<longrightarrow> pii_map s1 = pii_map s)"
proof -
  assume run: "steps w k (GenerateSQL, initial_state q) [] = Returned (n, s) tr"
  have q0: "question (initial_state q :: 'a agent_state) = q"
    by (simp add: initial_state_def)
  have "question s = q"
    using steps_question[OF run] q0 by simp
  moreover have "0 < k \<Longrightarrow> tokenized q s"
    by (rule steps_tokenized[OF run q0]) simp
  moreover have "\<forall>s1 tr1. execute_sql_node w s tr = Returned s1 tr1 \<longrightarrow> pii_map s1 = pii_map s"
    using execute_sql_Returned by blast
  moreover have "\<forall>s1 tr1. generate_answer_node w s tr = Returned s1 tr1 \<longrightarrow> pii_map s1 = pii_map s"
    using generate_answer_Returned by blast
  ultimately show ?thesis
    unfolding tokenized_def by blast
qed

theorem question_and_map_stable_witness:
  "\<exists>n s tr. steps answering_world 3 (GenerateSQL, initial_state ''mail bob@x.io'') [] = Returned (n, s) tr
     \<and> question s = ''mail bob@x.io''
     \<and> sanitized_question s = ''mail __EMAIL_1__''
     \<and> pii_map s = [(''__EMAIL_1__'', ''bob@x.io'')]"
proof -
  have "returned (steps answering_world 3 (GenerateSQL, initial_state ''mail bob@x.io'') []) \<noteq> None"
    by code_simp
  then obtain n s tr where
    run: "steps answering_world 3 (GenerateSQL, initial_state ''mail bob@x.io'') [] = Returned (n, s) tr"
    by (cases "steps answering_world 3 (GenerateSQL, initial_state ''mail bob@x.io'') []")
       (auto simp: returned_def)
  have tok: "pii_filter_input ''mail bob@x.io'' = (''mail __EMAIL_1__'', [(''__EMAIL_1__'', ''bob@x.io'')])"
    by code_simp
  show ?thesis
    using question_and_map_stable[OF run] run tok by simp
qed

section \<open>The state that reaches the executor\<close>

lemma steps_last:
  "steps w (Suc k) c tr = Returned c' tr' \<Longrightarrow>
   \<exists>c1 tr1. steps w k c tr = Returned c1 tr1 \<and> step w c1 tr1 = Returned c' tr'"
proof (induction k arbitrary: c tr)
  case 0
  then show ?case by (simp split: outcome.splits)
next
  case (Suc k)
  from Suc.prems obtain c2 tr2 where 1: "step w c tr = Returned c2 tr2"
    and 2: "steps w (Suc k) c2 tr2 = Returned c' tr'"
    by (auto simp: steps_Suc[of w "Suc k"] split: outcome.splits)
  from Suc.IH[OF 2] obtain c1 tr1 where "steps w k c2 tr2 = Returned c1 tr1"
    and "step w c1 tr1 = Returned c' tr'" by blast
  with 1 show ?case by (simp add: steps_Suc[of w k])
qed

lemma should_retry_node: "should_retry s = Inr n \<Longrightarrow> n = GenerateSQL \<or> n = GenerateAnswer"
  by (auto simp: should_retry_def split: if_splits option.splits)

lemma step_into_execute:
  assumes "step w (n, s) tr = Returned (ExecuteSQL, s') tr'"
  shows "error s' = None \<or> (error s' = Some ''Unsafe query detected.'' \<and> sql_query s' = [])"
proof (cases n)
  case CheckSQL
  with assms have "check_sql_node w s tr = Returned s' tr'"
    by (auto split: outcome.splits)
  then show ?thesis using check_sql_Returned by blast
next
  case ExecuteSQL
  with assms show ?thesis
    by (auto split: outcome.splits sum.splits dest: should_retry_node)
qed (use assms in \<open>auto split: outcome.splits\<close>)

lemma answer_without_error:
  assumes "error s = None" and "query_result s = Some result"
  shows "generate_answer_node w s tr =
     (case llm_invoke w (length tr) [HumanMessage (answer_prompt (sanitized_question s) (sql_query s) result)] of
        None \<Rightarrow> Raised LLMError (tr @ [LLMCall [HumanMessage (answer_prompt (sanitized_question s) (sql_query s) result)]])
      | Some content \<Rightarrow>
          Returned (s\<lparr>final_answer := Some (scrub_placeholders (pii_map s) content)\<rparr>)
            (tr @ [LLMCall [HumanMessage (answer_prompt (sanitized_question s) (sql_query s) result)]]))"
  using assms by (simp add: generate_answer_node_def truthy_def Let_def)

text \<open>
  C9. Let a run reach the executor, let the execution of the re-hydrated query
  succeed, and let the store reject the empty query. Then the error field is unset
  before and after the execution, the edge taken leads to answer composition, and
  the answer node does not take its error branch: it asks the text-generation
  service, and a final answer it returns is the scrubbed reply.
\<close>

theorem successful_execution_has_no_error:
  assumes run: "steps w k (GenerateSQL, initial_state q) [] = Returned (ExecuteSQL, s) tr"
    and ok: "read_sql_query w (length tr) (rehydrate (pii_map s) (sql_query s)) = Inr conn"
    and rej: "\<forall>i. \<exists>msg. read_sql_query w i [] = Inl msg"
  shows "error s = None
    \<and> (\<exists>s' tr' result.
          step w (ExecuteSQL, s) tr = Returned (GenerateAnswer, s') tr'
        \<and> error s' = None
        \<and> generate_answer_node w s' tr' =
            (case llm_invoke w (length tr') [HumanMessage (answer_prompt (sanitized_question s') (sql_query s') result)] of
               None \<Rightarrow> Raised LLMError (tr' @ [LLMCall [HumanMessage (answer_prompt (sanitized_question s') (sql_query s') result)]])
             | Some content \<Rightarrow>
                 Returned (s'\<lparr>final_answer := Some (scrub_placeholders (pii_map s') content)\<rparr>)
                   (tr' @ [LLMCall [HumanMessage (answer_prompt (sanitized_question s') (sql_query s') result)]])))"
proof -
  obtain k' where k: "k = Suc k'"
    using run by (cases k) auto
  from steps_last[OF run[unfolded k]] obtain n1 s1 tr1 where
    "step w (n1, s1) tr1 = Returned (ExecuteSQL, s) tr" by (metis surj_pair)
  then have shape: "error s = None \<or> (error s = Some ''Unsafe query detected.'' \<and> sql_query s = [])"
    by (rule step_into_execute)
  have q0: "question (initial_state q :: 'a agent_state) = q"
    by (simp add: initial_state_def)
  have "tokenized q s"
    by (rule steps_tokenized[OF run q0]) (simp add: k)
  then have keys: "\<And>p r. (p, r) \<in> set (pii_map s) \<Longrightarrow> p \<noteq> []"
    using pii_keys_nonempty by (simp add: tokenized_def)
  have e: "error s = None"
  proof (rule ccontr)
    assume "error s \<noteq> None"
    with shape have "sql_query s = []" by auto
    then have "rehydrate (pii_map s) (sql_query s) = []"
      using keys by (simp add: rehydrate_Nil)
    with ok rej show False by (metis sum.distinct(1))
  qed
  let ?s' = "s\<lparr>query_result := Some (redact_result_data (df_str conn) (pii_map s)),
                chart_data := Some (chart_of conn)\<rparr>"
  let ?tr' = "tr @ [DBExec (rehydrate (pii_map s) (sql_query s))]"
  have "step w (ExecuteSQL, s) tr = Returned (GenerateAnswer, ?s') ?tr'"
    using execute_success[OF ok] e by (simp add: should_retry_def truthy_def)
  moreover have "error ?s' = None" using e by simp
  moreover have "query_result ?s' = Some (redact_result_data (df_str conn) (pii_map s))" by simp
  ultimately show ?thesis
    using e answer_without_error[of ?s' "redact_result_data (df_str conn) (pii_map s)" w ?tr']
    by blast
qed

theorem successful_execution_has_no_error_witness:
  "\<exists>s tr. steps answering_world 2 (GenerateSQL, initial_state ''How many customers?'') []
            = Returned (ExecuteSQL, s) tr
     \<and> error s = None
     \<and> (\<exists>s' tr'. step answering_world (ExecuteSQL, s) tr = Returned (GenerateAnswer, s') tr' \<and> error s' = None)"
proof -
  let ?r = "steps answering_world 2 (GenerateSQL, initial_state ''How many customers?'') []"
  have "map_option (\<lambda>(n, s). (n, sql_query s, pii_map s)) (returned ?r)
          = Some (ExecuteSQL, ''SELECT name FROM customers'', [])"
    by code_simp
  then obtain s tr where run: "?r = Returned (ExecuteSQL, s) tr"
    and sq: "sql_query s = ''SELECT name FROM customers''" and pm: "pii_map s = []"
    by (cases ?r) (auto simp: returned_def)
  have ok: "read_sql_query answering_world (length tr) (rehydrate (pii_map s) (sql_query s))
              = Inr \<lparr>df_columns = [''name''], df_rows = [[1]], df_str = ''name 1''\<rparr>"
    by (simp add: sq pm rehydrate_def answering_world_def scripted_world_def echo_store_def)
  have rej: "\<forall>i. \<exists>msg. read_sql_query answering_world i [] = Inl msg"
    by (simp add: answering_world_def scripted_world_def echo_store_def)
  show ?thesis
    using successful_execution_has_no_error[OF run ok rej] run by blast
qed

section \<open>Composing node executions\<close>






section \<open>One attempt: synthesis, validation, execution\<close>








section \<open>The retry counter\<close>





section \<open>Termination of a run\<close>







section \<open>Decimal numerals and placeholders\<close>








section \<open>The map built by the tokenizer\<close>





section \<open>Where a real value escapes\<close>

text \<open>
  C1. The question names an address, every query written for it is rejected by the
  store with a message that repeats the re-hydrated query, and the answer node puts
  the last message into the final answer as it is: the final answer contains the
  real value recorded in the placeholder map.
\<close>

theorem error_answer_embeds_real_value:
  "map_option (\<lambda>s. (final_answer s, pii_map s)) (returned (invoke failing_world 25 ''Who is bob@x.io?''))
     = Some (Some ''Error: no such column: SELECT bob@x.io'', [(''__EMAIL_1__'', ''bob@x.io'')])
   \<and> contains ''bob@x.io'' ''Error: no such column: SELECT bob@x.io''"
  by code_simp

text \<open>
  The replacement can itself complete an occurrence of the value it removes: the
  placeholder ends with an underscore, and here the value starts with one.
\<close>

lemma sanitized_question_keeps_value:
  "pii_filter_input ''_@b.c@b.c'' = (''__EMAIL_1__@b.c'', [(''__EMAIL_1__'', ''_@b.c'')])
   \<and> contains ''_@b.c'' ''__EMAIL_1__@b.c''"
  by code_simp

text \<open>
  An execution error whose text is empty is not seen as an error by the edge after
  the executor nor by the answer node, which then reads a result that no execution
  has written.
\<close>

lemma empty_error_message_run:
  "returned (invoke silent_failure_world 25 ''q'') = None
   \<and> exec_count (events_of (invoke silent_failure_world 25 ''q'')) = 1"
  by code_simp

section \<open>Scanning past text that cannot start a match\<close>






section \<open>The shape of a placeholder\<close>








section \<open>Texts with placeholders\<close>



lemma masked_mono: "masked E J s t \<Longrightarrow> J \<subseteq> J' \<Longrightarrow> masked E J' s t"
  by (induction rule: masked.induct) (auto intro: masked.intros)







section \<open>Replacing a value by its placeholder, and back\<close>





section \<open>What the scan matches\<close>





section \<open>The two passes over the placeholder map\<close>






section \<open>Occurrences of a value after a replacement\<close>














end
